theory Spec2Isabelle
  imports Main "HOL-Library.Sublist"
begin

section \<open>Strings and constants of \<^verbatim>\<open>scripts/fetch_news.py\<close>\<close>

text \<open>
  A Python \<^verbatim>\<open>str\<close> is a sequence of Unicode code points, and slicing and
  \<^verbatim>\<open>len\<close> count code points. It is modelled as a list of code points; the ASCII
  part of a literal is written with \<open>ascii\<close>, the CJK part by its code points.
\<close>

type_synonym pystr = "nat list"

definition ascii :: "string \<Rightarrow> pystr" where
  "ascii s = map of_char s"

definition LT :: nat where "LT = 60"   \<comment> \<open>the character \<^verbatim>\<open><\<close>\<close>
definition GT :: nat where "GT = 62"   \<comment> \<open>the character \<^verbatim>\<open>>\<close>\<close>

definition rss_url :: pystr where
  "rss_url = ascii ''http://feeds.bbci.co.uk/news/rss.xml''"

definition no_title :: pystr where     \<comment> \<open>line 42, U+7121 U+6A19 U+984C\<close>
  "no_title = [28961, 27161, 38988]"

definition no_link :: pystr where      \<comment> \<open>line 43\<close>
  "no_link = ascii ''#''"

definition no_desc :: pystr where      \<comment> \<open>line 44, U+7121 U+63CF U+8FF0\<close>
  "no_desc = [28961, 25551, 36848]"

definition ellipsis :: pystr where     \<comment> \<open>line 44\<close>
  "ellipsis = ascii ''...''"

definition news_marker :: pystr where  \<comment> \<open>line 88, the text that is searched\<close>
  \<open>news_marker = ascii ''<div id="news"></div>''\<close>

definition news_open :: pystr where    \<comment> \<open>line 88, the replacement before the news\<close>
  \<open>news_open = ascii ''<div id="news">''\<close>

definition news_close :: pystr where   \<comment> \<open>line 88, the replacement after the news\<close>
  "news_close = ascii ''</div>''"

definition time_marker :: pystr where  \<comment> \<open>line 90, an HTML comment with seven CJK characters\<close>
  "time_marker = ascii ''<!-- '' @ [33139, 26412, 26371, 25554, 20837, 26178, 38291] @ ascii '' -->''"

definition time_format :: pystr where  \<comment> \<open>lines 81 and 84\<close>
  "time_format = ascii ''%Y-%m-%d %H:%M:%S ('' @ [21488, 28771, 26178, 38291] @ ascii '')''"

definition unavailable :: pystr where  \<comment> \<open>line 83\<close>
  "unavailable = ascii ''<p>'' @
     [28961, 27861, 36617, 20837, 26032, 32862, 65292, 35531, 31245, 24460, 20877, 35430, 12290] @
     ascii ''</p>''"

section \<open>Exceptions and console output\<close>

text \<open>
  Every exception the script can meet is a value. The first three are subclasses of
  \<^verbatim>\<open>requests.exceptions.RequestException\<close>; \<open>HTTPError\<close> carries the status code.
  A printed line is a value too; the text of an exception inside a message is kept as
  the exception itself.
\<close>

datatype py_exn =
    Timeout | ConnectionError | HTTPError nat
  | ParseError
  | FileNotFoundError | PermissionError
  | OtherError

fun is_RequestException :: "py_exn \<Rightarrow> bool" where
  "is_RequestException Timeout = True"
| "is_RequestException ConnectionError = True"
| "is_RequestException (HTTPError _) = True"
| "is_RequestException _ = False"

datatype msg =
    StartMsg                      \<comment> \<open>line 105\<close>
  | RequestErrorMsg py_exn        \<comment> \<open>line 56\<close>
  | ParseErrorMsg py_exn          \<comment> \<open>line 59\<close>
  | UnknownErrorMsg py_exn        \<comment> \<open>line 62\<close>
  | UpdatedMsg nat pystr          \<comment> \<open>line 96: number of items and the time\<close>
  | NotFoundMsg                   \<comment> \<open>line 99\<close>
  | UpdateErrorMsg py_exn         \<comment> \<open>line 101\<close>
  | EndMsg                        \<comment> \<open>line 108\<close>

section \<open>The XML tree of \<^verbatim>\<open>xml.etree.ElementTree\<close>\<close>

text \<open>
  An element has a tag, an optional text (\<open>text_of\<close>, the attribute \<^verbatim>\<open>text\<close>;
  \<^verbatim>\<open>None\<close> for an element without text) and its children in document order.
  \<open>find_elem\<close> is \<^verbatim>\<open>Element.find(tag)\<close>: the first direct child with that tag.
  \<open>findall_desc\<close> is \<^verbatim>\<open>Element.findall('.//tag')\<close>: every element below the root,
  at any depth, with that tag, in document order; the root itself is not among them.
\<close>

datatype element = Element (tag: pystr) (text_of: "pystr option") (children: "element list")

definition find_elem :: "element \<Rightarrow> pystr \<Rightarrow> element option" where
  "find_elem e t = List.find (\<lambda>c. tag c = t) (children e)"

fun descendants :: "element \<Rightarrow> element list" where
  "descendants (Element t x cs) = concat (map (\<lambda>c. c # descendants c) cs)"

definition findall_desc :: "element \<Rightarrow> pystr \<Rightarrow> element list" where
  "findall_desc root t = filter (\<lambda>e. tag e = t) (descendants root)"

section \<open>Python string operations\<close>

text \<open>\<^verbatim>\<open>xs[:n]\<close>: a negative bound counts from the end.\<close>

definition slice_to :: "int \<Rightarrow> 'a list \<Rightarrow> 'a list" where
  "slice_to n xs = (if 0 \<le> n then take (nat n) xs else take (nat (int (length xs) + n)) xs)"

text \<open>\<^verbatim>\<open>x or d\<close> on an optional string: \<^verbatim>\<open>None\<close> and the empty string are falsy.\<close>

definition text_or :: "pystr option \<Rightarrow> pystr \<Rightarrow> pystr" where
  "text_or x d = (case x of None \<Rightarrow> d | Some s \<Rightarrow> if s = [] then d else s)"

text \<open>
  \<^verbatim>\<open>re.sub(r'<[^>]+>', '', s)\<close>: scanning from the left, at a \<^verbatim>\<open><\<close> the class
  \<^verbatim>\<open>[^>]+\<close> takes every character up to the next \<^verbatim>\<open>>\<close> (line breaks and further
  \<^verbatim>\<open><\<close> included); the match needs at least one such character and the closing
  \<^verbatim>\<open>>\<close>. A match is deleted and the scan goes on behind it; otherwise the
  character is kept.
\<close>

function strip_tags :: "pystr \<Rightarrow> pystr" where
  "strip_tags [] = []"
| "strip_tags (c # cs) =
     (if c = LT \<and> takeWhile (\<lambda>x. x \<noteq> GT) cs \<noteq> [] \<and> dropWhile (\<lambda>x. x \<noteq> GT) cs \<noteq> []
      then strip_tags (tl (dropWhile (\<lambda>x. x \<noteq> GT) cs))
      else c # strip_tags cs)"
  by pat_completeness auto
termination
proof (relation "measure length")
  show "wf (measure length)" by simp
next
  fix c :: nat and cs :: pystr
  assume "c = LT \<and> takeWhile (\<lambda>x. x \<noteq> GT) cs \<noteq> [] \<and> dropWhile (\<lambda>x. x \<noteq> GT) cs \<noteq> []"
  have "length (tl (dropWhile (\<lambda>x. x \<noteq> GT) cs)) \<le> length cs"
    using length_dropWhile_le [of "\<lambda>x. x \<noteq> GT" cs] by simp
  then show "(tl (dropWhile (\<lambda>x. x \<noteq> GT) cs), c # cs) \<in> measure length" by simp
next
  fix c :: nat and cs :: pystr
  show "(cs, c # cs) \<in> measure length" by simp
qed

text \<open>
  \<^verbatim>\<open>s.replace(old, new)\<close>: every occurrence of \<open>old\<close>, found from the left without
  overlap, is replaced. With an empty \<open>old\<close> Python puts \<open>new\<close> before every character
  and at the end.
\<close>

fun replace_scan :: "'a list \<Rightarrow> 'a list \<Rightarrow> 'a list \<Rightarrow> 'a list" where
  "replace_scan old new [] = []"
| "replace_scan old new (c # cs) =
     (if prefix old (c # cs) then new @ replace_scan old new (drop (length old - 1) cs)
      else c # replace_scan old new cs)"

definition py_replace :: "'a list \<Rightarrow> 'a list \<Rightarrow> 'a list \<Rightarrow> 'a list" where
  "py_replace old new s =
     (if old = [] then new @ concat (map (\<lambda>c. c # new) s) else replace_scan old new s)"

section \<open>The fetcher: \<^verbatim>\<open>fetch_bbc_news\<close>\<close>

text \<open>
  The network and the XML parser are outside the script. \<open>requests_get url timeout\<close> is
  what \<^verbatim>\<open>requests.get\<close> does: it raises, or returns a response with a status code
  and a body. \<open>fromstring\<close> is \<^verbatim>\<open>ET.fromstring\<close>: it raises (\<open>ParseError\<close> on
  malformed XML) or returns the root element.
\<close>

record response =
  status_code :: nat
  content :: "nat list"

record net =
  requests_get :: "pystr \<Rightarrow> nat \<Rightarrow> py_exn + response"
  fromstring :: "nat list \<Rightarrow> py_exn + element"

text \<open>\<^verbatim>\<open>Response.raise_for_status()\<close> raises \<open>HTTPError\<close> for a 4xx or 5xx status.\<close>

definition raise_for_status :: "response \<Rightarrow> py_exn + unit" where
  "raise_for_status r =
     (if 400 \<le> status_code r \<and> status_code r < 600 then Inl (HTTPError (status_code r))
      else Inr ())"

text \<open>Lines 44 and 47: the description of an item, from the result of \<^verbatim>\<open>item.find('description')\<close>.\<close>

definition item_desc :: "element option \<Rightarrow> pystr" where
  "item_desc desc_elem =
     (let desc = (case desc_elem of
                    None \<Rightarrow> no_desc
                  | Some d \<Rightarrow> (case text_of d of
                                 None \<Rightarrow> no_desc
                               | Some s \<Rightarrow> if s = [] then no_desc else take 100 s @ ellipsis))
      in strip_tags desc)"

text \<open>Line 50: the f-string.\<close>

definition html_item :: "pystr \<Rightarrow> pystr \<Rightarrow> pystr \<Rightarrow> pystr" where
  \<open>html_item link title desc =
     ascii ''<li><a href="'' @ link @ ascii ''" target="_blank">'' @ title @ ascii ''</a>: '' @
     desc @ ascii ''</li>''\<close>

text \<open>Lines 37 to 50: the body of the loop; \<open>None\<close> when the item is passed over.\<close>

definition render_item :: "element \<Rightarrow> pystr option" where
  "render_item item =
     (let title_elem = find_elem item (ascii ''title'');
          link_elem = find_elem item (ascii ''link'');
          desc_elem = find_elem item (ascii ''description'')
      in case (title_elem, link_elem) of
           (Some t, Some l) \<Rightarrow>
             (let title = text_or (text_of t) no_title;
                  link = text_or (text_of l) no_link;
                  desc = item_desc desc_elem
              in Some (html_item link title desc))
         | _ \<Rightarrow> None)"

text \<open>Lines 35 to 51: the loop, with \<open>items\<close> the list built so far.\<close>

fun collect :: "element list \<Rightarrow> pystr list \<Rightarrow> pystr list" where
  "collect [] items = items"
| "collect (item # rest) items =
     (case render_item item of
        Some h \<Rightarrow> collect rest (items @ [h])
      | None \<Rightarrow> collect rest items)"

text \<open>Lines 28 to 53: the body of the \<^verbatim>\<open>try\<close>.\<close>

definition fetch_body :: "net \<Rightarrow> int \<Rightarrow> py_exn + pystr list" where
  "fetch_body w num_items =
     (case requests_get w rss_url 10 of
        Inl e \<Rightarrow> Inl e
      | Inr response \<Rightarrow>
          (case raise_for_status response of
             Inl e \<Rightarrow> Inl e
           | Inr _ \<Rightarrow>
               (case fromstring w (content response) of
                  Inl e \<Rightarrow> Inl e
                | Inr root \<Rightarrow>
                    Inr (collect (slice_to num_items (findall_desc root (ascii ''item''))) []))))"

text \<open>
  Lines 26 to 63: the three handlers, in the order of the source. The result is what
  the caller receives: \<open>Inl\<close> would be an exception leaving the function, \<open>Inr\<close> the
  printed lines and the returned list.
\<close>

definition fetch_bbc_news :: "net \<Rightarrow> int \<Rightarrow> py_exn + (msg list \<times> pystr list)" where
  "fetch_bbc_news w num_items =
     (case fetch_body w num_items of
        Inr items \<Rightarrow> Inr ([], items)
      | Inl e \<Rightarrow>
          if is_RequestException e then Inr ([RequestErrorMsg e], [])
          else if e = ParseError then Inr ([ParseErrorMsg e], [])
          else Inr ([UnknownErrorMsg e], []))"

section \<open>The page updater: \<^verbatim>\<open>update_index_html\<close>\<close>

text \<open>
  The only file is \<^verbatim>\<open>index.html\<close> in the working directory: \<open>index_html\<close> is its
  text, \<open>None\<close> when the file does not exist. Opening it for reading raises
  \<open>FileNotFoundError\<close> when it is missing and \<open>PermissionError\<close> when it cannot be
  read; opening it for writing raises \<open>PermissionError\<close> when it cannot be written, and
  the text on disk then stays as it was.

  Line 75 opens the file in text mode with the default \<^verbatim>\<open>newline=None\<close>, so
  \<^verbatim>\<open>f.read()\<close> returns the text with every \<^verbatim>\<open>\r\n\<close> and every remaining
  \<^verbatim>\<open>\r\<close> turned into \<^verbatim>\<open>\n\<close>. Line 93 writes in text mode too, which turns
  \<^verbatim>\<open>\n\<close> into \<^verbatim>\<open>os.linesep\<close>; the disk is one where \<^verbatim>\<open>os.linesep\<close> is \<^verbatim>\<open>\n\<close>
  (Linux, macOS), so the text is stored as it is given.
\<close>

definition CR :: nat where "CR = 13"   \<comment> \<open>carriage return\<close>
definition LF :: nat where "LF = 10"   \<comment> \<open>line feed\<close>

fun universal_newlines :: "pystr \<Rightarrow> pystr" where
  "universal_newlines [] = []"
| "universal_newlines [c] = (if c = CR then [LF] else [c])"
| "universal_newlines (c # c' # cs) =
     (if c = CR \<and> c' = LF then LF # universal_newlines cs
      else if c = CR then LF # universal_newlines (c' # cs)
      else c # universal_newlines (c' # cs))"

record disk =
  index_html :: "pystr option"
  readable :: bool
  writable :: bool

definition read_file :: "disk \<Rightarrow> py_exn + pystr" where
  "read_file d =
     (case index_html d of
        None \<Rightarrow> Inl FileNotFoundError
      | Some s \<Rightarrow> if readable d then Inr (universal_newlines s) else Inl PermissionError)"

definition write_file :: "disk \<Rightarrow> pystr \<Rightarrow> py_exn + disk" where
  "write_file d s = (if writable d then Inr (d\<lparr>index_html := Some s\<rparr>) else Inl PermissionError)"

text \<open>
  Lines 78 to 84: the news fragment and the time. \<open>now_strftime fmt\<close> is
  \<^verbatim>\<open>datetime.now().strftime(fmt)\<close>, the clock of the run.
\<close>

definition prepare :: "(pystr \<Rightarrow> pystr) \<Rightarrow> pystr list \<Rightarrow> pystr \<times> pystr" where
  "prepare now_strftime news_items =
     (if news_items \<noteq> []
      then (ascii ''<ul>'' @ concat news_items @ ascii ''</ul>'', now_strftime time_format)
      else (unavailable, now_strftime time_format))"

text \<open>Lines 86 to 90: the two replacements, the news first.\<close>

definition substitute :: "pystr \<Rightarrow> pystr \<Rightarrow> pystr \<Rightarrow> pystr" where
  "substitute news_html update_time html_content =
     py_replace time_marker update_time
       (py_replace news_marker (news_open @ news_html @ news_close) html_content)"

text \<open>Lines 74 to 96: the body of the \<^verbatim>\<open>try\<close>.\<close>

definition update_body :: "(pystr \<Rightarrow> pystr) \<Rightarrow> disk \<Rightarrow> pystr list \<Rightarrow> py_exn + (disk \<times> msg list)" where
  "update_body now_strftime d news_items =
     (case read_file d of
        Inl e \<Rightarrow> Inl e
      | Inr html_content \<Rightarrow>
          (case prepare now_strftime news_items of
             (news_html, update_time) \<Rightarrow>
               (case write_file d (substitute news_html update_time html_content) of
                  Inl e \<Rightarrow> Inl e
                | Inr d' \<Rightarrow> Inr (d', [UpdatedMsg (length news_items) update_time]))))"

text \<open>
  Lines 73 to 101, with the two handlers. \<open>Inl\<close> would be an exception leaving the
  function; \<open>Inr\<close> is the disk afterwards and the printed lines.
\<close>

definition update_index_html ::
  "(pystr \<Rightarrow> pystr) \<Rightarrow> disk \<Rightarrow> pystr list \<Rightarrow> py_exn + (disk \<times> msg list)" where
  "update_index_html now_strftime d news_items =
     (case update_body now_strftime d news_items of
        Inr r \<Rightarrow> Inr r
      | Inl e \<Rightarrow>
          if e = FileNotFoundError then Inr (d, [NotFoundMsg])
          else Inr (d, [UpdateErrorMsg e]))"

section \<open>The entry point\<close>

text \<open>Lines 103 to 108.\<close>

definition main :: "net \<Rightarrow> (pystr \<Rightarrow> pystr) \<Rightarrow> disk \<Rightarrow> py_exn + (disk \<times> msg list)" where
  "main w now_strftime d =
     (case fetch_bbc_news w 5 of
        Inl e \<Rightarrow> Inl e
      | Inr (out1, news) \<Rightarrow>
          (case update_index_html now_strftime d news of
             Inl e \<Rightarrow> Inl e
           | Inr (d', out2) \<Rightarrow> Inr (d', [StartMsg] @ out1 @ out2 @ [EndMsg])))"

section \<open>Notions used in the statements\<close>

text \<open>
  An item is valid when line 41 lets it through: it has a \<^verbatim>\<open>title\<close> child and a
  \<^verbatim>\<open>link\<close> child. An element has no text when its text is \<^verbatim>\<open>None\<close> or empty.
\<close>

definition valid_item :: "element \<Rightarrow> bool" where
  "valid_item item =
     (find_elem item (ascii ''title'') \<noteq> None \<and> find_elem item (ascii ''link'') \<noteq> None)"


text \<open>
  The pieces of a text between the occurrences of \<open>old\<close>, found from the left without
  overlap as \<^verbatim>\<open>str.replace\<close> finds them (Python's \<^verbatim>\<open>s.split(old)\<close>), and the
  pieces put together again with a separator (\<^verbatim>\<open>sep.join(pieces)\<close>). A text with
  \<open>k\<close> occurrences has \<open>k + 1\<close> pieces.
\<close>

fun pieces :: "'a list \<Rightarrow> 'a list \<Rightarrow> 'a list list" where
  "pieces old [] = [[]]"
| "pieces old (c # cs) =
     (if prefix old (c # cs) then [] # pieces old (drop (length old - 1) cs)
      else (case pieces old cs of [] \<Rightarrow> [[c]] | p # ps \<Rightarrow> (c # p) # ps))"

fun join_with :: "'a list \<Rightarrow> 'a list list \<Rightarrow> 'a list" where
  "join_with sep [] = []"
| "join_with sep [p] = p"
| "join_with sep (p # q # ps) = p @ sep @ join_with sep (q # ps)"

text \<open>
  Two texts do not overlap when no occurrence of \<open>old\<close> can begin inside \<open>x\<close> or reach
  into it: no non-empty end of one is a beginning of the other, in either direction.
\<close>

definition no_overlap :: "'a list \<Rightarrow> 'a list \<Rightarrow> bool" where
  "no_overlap old x =
     ((\<forall>v \<in> set (suffixes old). v \<noteq> [] \<longrightarrow> \<not> prefix v x \<and> \<not> prefix x v) \<and>
      (\<forall>u \<in> set (suffixes x). u \<noteq> [] \<longrightarrow> \<not> prefix old u \<and> \<not> prefix u old))"

text \<open>Two runs of the page updater, the second on the disk the first one left.\<close>

definition update_twice ::
  "(pystr \<Rightarrow> pystr) \<Rightarrow> (pystr \<Rightarrow> pystr) \<Rightarrow> disk \<Rightarrow> pystr list \<Rightarrow> pystr list \<Rightarrow> py_exn + (disk \<times> msg list)" where
  "update_twice clock1 clock2 d items1 items2 =
     (case update_index_html clock1 d items1 of
        Inl e \<Rightarrow> Inl e
      | Inr (d1, out1) \<Rightarrow> update_index_html clock2 d1 items2)"

section \<open>Concrete inputs\<close>

text \<open>
  A network that answers 200 and whose body parses to a given tree, a network whose
  request raises a given exception, and some small feeds.
\<close>

definition ok_net :: "element \<Rightarrow> net" where
  "ok_net root =
     \<lparr>requests_get = (\<lambda>url timeout. Inr \<lparr>status_code = 200, content = []\<rparr>),
      fromstring = (\<lambda>body. Inr root)\<rparr>"

definition failing_net :: "py_exn \<Rightarrow> net" where
  "failing_net e =
     \<lparr>requests_get = (\<lambda>url timeout. Inl e),
      fromstring = (\<lambda>body. Inl ParseError)\<rparr>"

definition leaf :: "string \<Rightarrow> string \<Rightarrow> element" where
  "leaf t s = Element (ascii t) (Some (ascii s)) []"

definition feed_bad_good :: element where
  "feed_bad_good =
     Element (ascii ''rss'') None
       [Element (ascii ''channel'') None
          [Element (ascii ''item'') None [leaf ''title'' ''A''],
           Element (ascii ''item'') None [leaf ''title'' ''B'', leaf ''link'' ''http://b'']]]"





definition status_net :: "nat \<Rightarrow> element \<Rightarrow> net" where
  "status_net n root =
     \<lparr>requests_get = (\<lambda>url timeout. Inr \<lparr>status_code = n, content = []\<rparr>),
      fromstring = (\<lambda>body. Inr root)\<rparr>"

definition malformed_net :: net where
  "malformed_net =
     \<lparr>requests_get = (\<lambda>url timeout. Inr \<lparr>status_code = 200, content = []\<rparr>),
      fromstring = (\<lambda>body. Inl ParseError)\<rparr>"

definition long_text :: pystr where
  "long_text = ascii ''<b>'' @ replicate 100 97"

definition clock_at :: "string \<Rightarrow> pystr \<Rightarrow> pystr" where
  "clock_at s fmt = ascii s"

definition missing_disk :: disk where
  "missing_disk = \<lparr>index_html = None, readable = True, writable = True\<rparr>"

text \<open>A disk that holds a given \<^verbatim>\<open>index.html\<close>, and some pages.\<close>

definition disk_of :: "pystr \<Rightarrow> disk" where
  "disk_of c = \<lparr>index_html = Some c, readable = True, writable = True\<rparr>"

definition page_both :: pystr where
  "page_both = ascii ''<h1>x</h1>'' @ news_marker @ ascii ''<p>'' @ time_marker @ ascii ''</p>''"

definition page_twice :: pystr where
  "page_twice = news_marker @ ascii ''+'' @ time_marker @ ascii ''+'' @ news_marker @ time_marker"

definition page_no_news :: pystr where
  "page_no_news = ascii ''<div id=news></div><p>'' @ time_marker @ ascii ''</p>''"

text \<open>Pages with the line ends \<^verbatim>\<open>\r\n\<close> and \<^verbatim>\<open>\r\<close>, without and with the time marker.\<close>

definition page_crlf :: pystr where
  "page_crlf = ascii ''a'' @ [CR, LF] @ ascii ''b'' @ [CR] @ ascii ''c''"

definition page_crlf_time :: pystr where
  "page_crlf_time = ascii ''a'' @ [CR, LF] @ time_marker @ [CR] @ ascii ''c''"

section \<open>The loop and the description\<close>

lemma collect_map_filter: "collect xs acc = acc @ List.map_filter render_item xs"
  by (induction xs arbitrary: acc) (auto simp: List.map_filter_simps split: option.splits)


lemma render_item_None_iff: "render_item item = None \<longleftrightarrow> \<not> valid_item item"
  by (auto simp: render_item_def valid_item_def Let_def split: option.splits)

lemma length_map_filter_filter:
  "length (List.map_filter f xs) = length (filter (\<lambda>x. f x \<noteq> None) xs)"
  by (induction xs) (auto simp: List.map_filter_simps split: option.splits)

lemma strip_tags_no_LT: "LT \<notin> set s \<Longrightarrow> strip_tags s = s"
  by (induction s) auto

lemma strip_tags_no_desc: "strip_tags no_desc = no_desc"
  by (simp add: no_desc_def LT_def)

lemma fetch_body_ok:
  assumes "requests_get w rss_url 10 = Inr r" "\<not> (400 \<le> status_code r \<and> status_code r < 600)"
    "fromstring w (content r) = Inr root"
  shows "fetch_body w n = Inr (List.map_filter render_item (slice_to n (findall_desc root (ascii ''item''))))"
  using assms by (simp add: fetch_body_def raise_for_status_def collect_map_filter)

lemma fetch_total: "\<exists>out items. fetch_bbc_news w n = Inr (out, items)"
  by (simp add: fetch_bbc_news_def split: sum.splits)

section \<open>Properties of the fetcher\<close>

text \<open>
  C3, as the code has it. The first \<open>n\<close> \<^verbatim>\<open>item\<close> elements are selected before the test
  of line 41, so an item without title or link among them takes a place and yields
  nothing. For a response that parses and a count \<open>n \<ge> 0\<close>, the fetcher returns, in
  document order, the rendered items of the valid ones among the first \<open>n\<close> item
  elements: at most \<open>min K n\<close> of them, where \<open>K\<close> is the number of valid items of the
  feed, and exactly \<open>min K n\<close> when every item element of the feed is valid.
\<close>

theorem fetch_first_n_valid:
  assumes "requests_get w rss_url 10 = Inr r"
    and "\<not> (400 \<le> status_code r \<and> status_code r < 600)"
    and "fromstring w (content r) = Inr root"
    and "0 \<le> n"
  shows "fetch_bbc_news w n =
           Inr ([], List.map_filter render_item (take (nat n) (findall_desc root (ascii ''item''))))
       \<and> length (List.map_filter render_item (take (nat n) (findall_desc root (ascii ''item''))))
           \<le> min (length (filter valid_item (findall_desc root (ascii ''item'')))) (nat n)
       \<and> (list_all valid_item (findall_desc root (ascii ''item'')) \<longrightarrow>
            length (List.map_filter render_item (take (nat n) (findall_desc root (ascii ''item''))))
              = min (length (findall_desc root (ascii ''item''))) (nat n))"
proof -
  let ?all = "findall_desc root (ascii ''item'')"
  let ?sel = "take (nat n) ?all"
  have body: "fetch_body w n = Inr (List.map_filter render_item ?sel)"
    using fetch_body_ok [OF assms(1-3), of n] \<open>0 \<le> n\<close> by (simp add: slice_to_def)
  have len: "length (List.map_filter render_item ?sel) = length (filter valid_item ?sel)"
    by (simp add: length_map_filter_filter render_item_None_iff)
  have "length (filter valid_item ?all) =
          length (filter valid_item ?sel) + length (filter valid_item (drop (nat n) ?all))"
    using filter_append [of valid_item ?sel "drop (nat n) ?all"] by (simp del: filter_append)
  then have le1: "length (filter valid_item ?sel) \<le> length (filter valid_item ?all)" by simp
  have le2: "length (filter valid_item ?sel) \<le> nat n"
    using length_filter_le [of valid_item ?sel] by simp
  have allv: "length (filter valid_item ?sel) = min (length ?all) (nat n)"
    if "list_all valid_item ?all"
  proof -
    have "\<forall>x \<in> set ?sel. valid_item x"
      using that by (auto simp: list_all_iff dest: in_set_takeD)
    then have "filter valid_item ?sel = ?sel" by simp
    then show ?thesis by simp
  qed
  show ?thesis using body len le1 le2 allv by (simp add: fetch_bbc_news_def)
qed

theorem fetch_first_n_valid_witness:
  "fetch_bbc_news (ok_net feed_bad_good) 2 =
     Inr ([], [html_item (ascii ''http://b'') (ascii ''B'') no_desc])"
  using fetch_first_n_valid [of "ok_net feed_bad_good" "\<lparr>status_code = 200, content = []\<rparr>"
      feed_bad_good 2]
  by (simp add: ok_net_def feed_bad_good_def findall_desc_def List.map_filter_simps
      render_item_def find_elem_def leaf_def ascii_def text_or_def item_desc_def
      strip_tags_no_desc)

text \<open>
  C3, as the claim states it, fails: the feed below has one valid item, behind an item
  without link; with a requested count of 1 the fetcher returns no item, and
  \<open>min K n = 1\<close>.
\<close>

theorem fetch_count_counterexample:
  "fetch_bbc_news (ok_net feed_bad_good) 1 = Inr ([], []) \<and>
   min (length (filter valid_item (findall_desc feed_bad_good (ascii ''item'')))) (nat 1) = 1"
  by (simp add: fetch_bbc_news_def fetch_body_def ok_net_def raise_for_status_def
      feed_bad_good_def findall_desc_def slice_to_def render_item_def find_elem_def leaf_def
      valid_item_def ascii_def)





section \<open>Failures of the fetcher\<close>

text \<open>
  C5, as the code has it: the fetcher always returns a list to its caller, never an
  exception. Whatever exception the body of the \<^verbatim>\<open>try\<close> raises, one line is printed
  and the empty list is returned. The body raises when \<^verbatim>\<open>requests.get\<close> raises
  (timeout, connection error, anything else), when the status is 4xx or 5xx
  (\<^verbatim>\<open>raise_for_status\<close>), and when the parser raises (\<open>ParseError\<close> on malformed
  XML). A response with any other status, 2xx or not, is not a failure: when its
  body parses, the fetcher returns what the loop yields for its items.
\<close>

theorem fetch_absorbs_failures:
  "(\<exists>out items. fetch_bbc_news w n = Inr (out, items))
   \<and> (\<forall>e. fetch_body w n = Inl e \<longrightarrow> (\<exists>m. fetch_bbc_news w n = Inr ([m], [])))
   \<and> (\<forall>e. requests_get w rss_url 10 = Inl e \<longrightarrow> fetch_body w n = Inl e)
   \<and> (\<forall>r. requests_get w rss_url 10 = Inr r \<and> 400 \<le> status_code r \<and> status_code r < 600 \<longrightarrow>
          fetch_bbc_news w n = Inr ([RequestErrorMsg (HTTPError (status_code r))], []))
   \<and> (\<forall>r e. requests_get w rss_url 10 = Inr r \<and> \<not> (400 \<le> status_code r \<and> status_code r < 600) \<and>
          fromstring w (content r) = Inl e \<longrightarrow> fetch_body w n = Inl e)
   \<and> (\<forall>r. requests_get w rss_url 10 = Inr r \<and> \<not> (400 \<le> status_code r \<and> status_code r < 600) \<and>
          fromstring w (content r) = Inl ParseError \<longrightarrow>
          fetch_bbc_news w n = Inr ([ParseErrorMsg ParseError], []))
   \<and> (\<forall>r root. requests_get w rss_url 10 = Inr r \<and>
          \<not> (400 \<le> status_code r \<and> status_code r < 600) \<and>
          fromstring w (content r) = Inr root \<longrightarrow>
          fetch_bbc_news w n =
            Inr ([], collect (slice_to n (findall_desc root (ascii ''item''))) []))"
proof -
  have total: "\<exists>out items. fetch_bbc_news w n = Inr (out, items)"
    by (rule fetch_total)
  have caught: "\<exists>m. fetch_bbc_news w n = Inr ([m], [])" if "fetch_body w n = Inl e" for e
    using that by (simp add: fetch_bbc_news_def)
  have get: "fetch_body w n = Inl e" if "requests_get w rss_url 10 = Inl e" for e
    using that by (simp add: fetch_body_def)
  have status: "fetch_bbc_news w n = Inr ([RequestErrorMsg (HTTPError (status_code r))], [])"
    if "requests_get w rss_url 10 = Inr r" "400 \<le> status_code r" "status_code r < 600" for r
    using that by (simp add: fetch_bbc_news_def fetch_body_def raise_for_status_def)
  have parse: "fetch_body w n = Inl e"
    if "requests_get w rss_url 10 = Inr r" "\<not> (400 \<le> status_code r \<and> status_code r < 600)"
      "fromstring w (content r) = Inl e" for r e
    using that by (auto simp: fetch_body_def raise_for_status_def)
  have malformed: "fetch_bbc_news w n = Inr ([ParseErrorMsg ParseError], [])"
    if "requests_get w rss_url 10 = Inr r" "\<not> (400 \<le> status_code r \<and> status_code r < 600)"
      "fromstring w (content r) = Inl ParseError" for r
    using parse [OF that] by (simp add: fetch_bbc_news_def)
  have passed: "fetch_bbc_news w n =
      Inr ([], collect (slice_to n (findall_desc root (ascii ''item''))) [])"
    if "requests_get w rss_url 10 = Inr r" "\<not> (400 \<le> status_code r \<and> status_code r < 600)"
      "fromstring w (content r) = Inr root" for r root
    using that by (auto simp: fetch_bbc_news_def fetch_body_def raise_for_status_def)
  show ?thesis
    using total caught get status parse malformed passed by blast
qed

theorem fetch_absorbs_failures_witness:
  "fetch_bbc_news (failing_net Timeout) 5 = Inr ([RequestErrorMsg Timeout], [])
   \<and> fetch_bbc_news (status_net 500 feed_bad_good) 5 = Inr ([RequestErrorMsg (HTTPError 500)], [])
   \<and> fetch_bbc_news malformed_net 5 = Inr ([ParseErrorMsg ParseError], [])
   \<and> fetch_bbc_news (failing_net OtherError) 5 = Inr ([UnknownErrorMsg OtherError], [])"
  using fetch_absorbs_failures [of "status_net 500 feed_bad_good" 5]
    fetch_absorbs_failures [of malformed_net 5]
    fetch_absorbs_failures [of "failing_net Timeout" 5]
  by (simp add: failing_net_def status_net_def malformed_net_def fetch_bbc_news_def fetch_body_def)

text \<open>
  C5, as the claim states it, fails for a status that is neither 2xx nor 4xx nor 5xx:
  \<^verbatim>\<open>raise_for_status\<close> does not raise for it. A response with status 300 whose body
  parses to a feed with a valid item makes the fetcher return that item, not the
  empty list.
\<close>

theorem nonsuccess_status_counterexample:
  "requests_get (status_net 300 feed_bad_good) rss_url 10 = Inr \<lparr>status_code = 300, content = []\<rparr>
   \<and> fetch_bbc_news (status_net 300 feed_bad_good) 5 =
       Inr ([], [html_item (ascii ''http://b'') (ascii ''B'') no_desc])"
  by (simp add: status_net_def fetch_bbc_news_def fetch_body_def raise_for_status_def
      feed_bad_good_def findall_desc_def slice_to_def render_item_def find_elem_def leaf_def
      text_or_def item_desc_def strip_tags_no_desc ascii_def)

section \<open>Properties of the page updater\<close>

text \<open>
  C9: when \<^verbatim>\<open>index.html\<close> does not exist, \<^verbatim>\<open>update_index_html\<close> returns normally with
  the disk as it was, having printed the file-not-found line, whatever the items; and
  the whole run returns normally with the disk as it was, its last line printed.
\<close>

theorem missing_file_no_write:
  assumes "index_html d = None"
  shows "update_index_html now_strftime d news_items = Inr (d, [NotFoundMsg])
       \<and> (\<exists>out. main w now_strftime d = Inr (d, [StartMsg] @ out @ [NotFoundMsg, EndMsg]))"
proof -
  have upd: "update_index_html now_strftime d items = Inr (d, [NotFoundMsg])" for items
    using assms by (simp add: update_index_html_def update_body_def read_file_def)
  obtain out news where "fetch_bbc_news w 5 = Inr (out, news)"
    using fetch_total by blast
  then have "main w now_strftime d = Inr (d, [StartMsg] @ out @ [NotFoundMsg, EndMsg])"
    using upd [of news] by (simp add: main_def)
  then show ?thesis using upd by blast
qed

theorem missing_file_no_write_witness:
  "index_html missing_disk = None
   \<and> update_index_html (clock_at ''2026-01-01 00:00:00'') missing_disk [ascii ''<li>x</li>'']
       = Inr (missing_disk, [NotFoundMsg])
   \<and> main (failing_net Timeout) (clock_at ''2026-01-01 00:00:00'') missing_disk
       = Inr (missing_disk, [StartMsg, RequestErrorMsg Timeout, NotFoundMsg, EndMsg])"
proof -
  have h: "index_html missing_disk = None" by (simp add: missing_disk_def)
  have m: "fetch_bbc_news (failing_net Timeout) 5 = Inr ([RequestErrorMsg Timeout], [])"
    by (simp add: failing_net_def fetch_bbc_news_def fetch_body_def)
  show ?thesis
    using h missing_file_no_write [OF h, of "clock_at ''2026-01-01 00:00:00''"
        "[ascii ''<li>x</li>'']" "failing_net Timeout"] m
    by (simp add: main_def update_index_html_def update_body_def read_file_def)
qed

section \<open>The description of an item\<close>

lemma strip_tags_append_plain:
  assumes "LT \<notin> set e" "GT \<notin> set e"
  shows "strip_tags (s @ e) = strip_tags s @ e"
proof (induction s rule: strip_tags.induct)
  case 1
  show ?case using assms(1) by (simp add: strip_tags_no_LT)
next
  case (2 c cs)
  let ?P = "\<lambda>x. x \<noteq> GT"
  show ?case
  proof (cases "GT \<in> set cs")
    case True
    then have tw: "takeWhile ?P (cs @ e) = takeWhile ?P cs"
      by (simp add: takeWhile_append1)
    from True have dw: "dropWhile ?P (cs @ e) = dropWhile ?P cs @ e"
      by (simp add: dropWhile_append1)
    from True have ne: "dropWhile ?P cs \<noteq> []"
      by (simp add: dropWhile_eq_Nil_conv) 
    show ?thesis
    proof (cases "c = LT \<and> takeWhile ?P cs \<noteq> []")
      case True
      with ne tw dw "2.IH"(1) show ?thesis by simp
    next
      case False
      with tw dw "2.IH"(2) show ?thesis by auto
    qed
  next
    case False
    then have "dropWhile ?P cs = []" by (auto simp: dropWhile_eq_Nil_conv)
    moreover from False assms(2) have "dropWhile ?P (cs @ e) = []"
      by (auto simp: dropWhile_eq_Nil_conv)
    ultimately show ?thesis using "2.IH"(2) by simp
  qed
qed

text \<open>
  C1, as the code has it. For a description element with non-empty text, the rendered
  description is the first 100 characters of the text (the whole text when it has at
  most 100), with the tags stripped, followed by the ellipsis: the ellipsis is added
  whatever the length of the text, and the tags are stripped after the cut. Where the
  first 100 characters hold no \<^verbatim>\<open><\<close>, that is exactly the first 100 characters
  followed by the ellipsis.
\<close>

theorem description_rendering:
  assumes "text_of d = Some s" and "s \<noteq> []"
  shows "item_desc (Some d) = strip_tags (take 100 s) @ ellipsis
       \<and> (length s \<le> 100 \<longrightarrow> item_desc (Some d) = strip_tags s @ ellipsis)
       \<and> (LT \<notin> set (take 100 s) \<longrightarrow> item_desc (Some d) = take 100 s @ ellipsis)"
proof -
  have e: "LT \<notin> set ellipsis" "GT \<notin> set ellipsis"
    by (simp_all add: ellipsis_def ascii_def LT_def GT_def)
  have "item_desc (Some d) = strip_tags (take 100 s @ ellipsis)"
    using assms by (simp add: item_desc_def)
  then have main: "item_desc (Some d) = strip_tags (take 100 s) @ ellipsis"
    by (simp add: strip_tags_append_plain [OF e])
  then show ?thesis by (simp add: strip_tags_no_LT)
qed

theorem description_rendering_witness:
  "item_desc (Some (Element (ascii ''description'') (Some long_text) [])) = replicate 97 97 @ ascii ''...''
   \<and> item_desc (Some (leaf ''description'' ''a<i>b</i>'')) = ascii ''ab...''"
  using description_rendering [of "Element (ascii ''description'') (Some long_text) []" long_text]
    description_rendering [of "leaf ''description'' ''a<i>b</i>''" "ascii ''a<i>b</i>''"]
  by (simp add: long_text_def leaf_def ascii_def ellipsis_def LT_def GT_def strip_tags_no_LT)

text \<open>
  C1, as the claim states it, fails. The text \<^verbatim>\<open>abc\<close>, shorter than 100 characters and
  free of tags, is rendered \<^verbatim>\<open>abc...\<close>, not unchanged. The text \<^verbatim>\<open><b>\<close> followed by
  a hundred \<^verbatim>\<open>a\<close> is rendered without the tag, not as its first 100 characters
  followed by the ellipsis.
\<close>

theorem description_counterexample:
  "length (ascii ''abc'') \<le> 100
   \<and> item_desc (Some (leaf ''description'' ''abc'')) = ascii ''abc...''
   \<and> item_desc (Some (leaf ''description'' ''abc'')) \<noteq> strip_tags (ascii ''abc'')
   \<and> 100 < length long_text
   \<and> item_desc (Some (Element (ascii ''description'') (Some long_text) [])) \<noteq> take 100 long_text @ ellipsis"
  by code_simp

section \<open>Global replacement\<close>

text \<open>
  \<^verbatim>\<open>str.replace\<close> in terms of the pieces: the text is its pieces joined by \<open>old\<close>, the
  result is the same pieces joined by \<open>new\<close>, and no piece holds \<open>old\<close>.
\<close>

lemma pieces_ne: "pieces old s \<noteq> []"
  by (induction old s rule: pieces.induct) (auto split: list.splits)

lemma join_with_more: "ps \<noteq> [] \<Longrightarrow> join_with sep (p # ps) = p @ sep @ join_with sep ps"
  by (cases ps) simp_all

lemma join_with_head: "join_with sep ((c # p) # ps) = c # join_with sep (p # ps)"
  by (cases ps) simp_all

lemma prefix_drop_rest:
  assumes "prefix old (c # cs)" "old \<noteq> []"
  shows "old @ drop (length old - 1) cs = c # cs"
proof -
  from assms(1) obtain zs where zs: "c # cs = old @ zs" by (auto simp: prefix_def)
  from assms(2) obtain o' where o': "old = c # o'" using zs by (cases old) auto
  with zs have "cs = o' @ zs" by simp
  then show ?thesis using o' zs by simp
qed

lemma join_pieces: "old \<noteq> [] \<Longrightarrow> join_with old (pieces old s) = s"
proof (induction old s rule: pieces.induct)
  case (1 old)
  show ?case by simp
next
  case (2 old c cs)
  show ?case
  proof (cases "prefix old (c # cs)")
    case True
    with "2.IH"(1) "2.prems" have "join_with old (pieces old (drop (length old - 1) cs))
        = drop (length old - 1) cs" by simp
    with True "2.prems" prefix_drop_rest [OF True "2.prems"] show ?thesis
      by (simp add: join_with_more pieces_ne)
  next
    case False
    obtain p ps where p: "pieces old cs = p # ps"
      using pieces_ne [of old cs] by (cases "pieces old cs") auto
    with False "2.IH"(2) "2.prems" have "join_with old (p # ps) = cs" by simp
    with False p show ?thesis by (simp add: join_with_head)
  qed
qed

lemma replace_pieces: "old \<noteq> [] \<Longrightarrow> replace_scan old new s = join_with new (pieces old s)"
proof (induction old s rule: pieces.induct)
  case (1 old)
  show ?case by simp
next
  case (2 old c cs)
  show ?case
  proof (cases "prefix old (c # cs)")
    case True
    with "2.IH"(1) "2.prems" show ?thesis
      by (simp add: join_with_more pieces_ne)
  next
    case False
    obtain p ps where p: "pieces old cs = p # ps"
      using pieces_ne [of old cs] by (cases "pieces old cs") auto
    with False "2.IH"(2) "2.prems" have "replace_scan old new cs = join_with new (p # ps)" by simp
    with False p show ?thesis by (simp add: join_with_head)
  qed
qed

lemma hd_pieces_prefix: "prefix (hd (pieces old s)) s"
  by (induction old s rule: pieces.induct) (auto split: list.splits)

lemma pieces_free: "old \<noteq> [] \<Longrightarrow> p \<in> set (pieces old s) \<Longrightarrow> \<not> sublist old p"
proof (induction old s arbitrary: p rule: pieces.induct)
  case (1 old)
  then show ?case by simp
next
  case (2 old c cs)
  show ?case
  proof (cases "prefix old (c # cs)")
    case True
    with "2.prems" "2.IH"(1) show ?thesis by auto
  next
    case False
    obtain q qs where q: "pieces old cs = q # qs"
      using pieces_ne [of old cs] by (cases "pieces old cs") auto
    have qfree: "\<not> sublist old q" using "2.IH"(2) [of q] False "2.prems"(1) q by simp
    have "prefix q cs" using hd_pieces_prefix [of old cs] q by simp
    then have "prefix (c # q) (c # cs)" by simp
    then have "\<not> prefix old (c # q)" using False prefix_order.trans by blast
    with qfree have "\<not> sublist old (c # q)" by (simp add: sublist_Cons_right)
    moreover have "p = c # q \<or> p \<in> set qs" using "2.prems"(2) False q by simp
    moreover have "\<not> sublist old p" if "p \<in> set qs"
      using "2.IH"(2) [of p] False "2.prems"(1) q that by simp
    ultimately show ?thesis by blast
  qed
qed

lemma pieces_absent: "\<not> sublist old s \<Longrightarrow> pieces old s = [s]"
proof (induction old s rule: pieces.induct)
  case (1 old)
  show ?case by simp
next
  case (2 old c cs)
  from "2.prems" have np: "\<not> prefix old (c # cs)" and ns: "\<not> sublist old cs"
    by (simp_all add: sublist_Cons_right)
  with "2.IH"(2) show ?case by simp
qed

lemma pieces_present: "old \<noteq> [] \<Longrightarrow> sublist old s \<Longrightarrow> 2 \<le> length (pieces old s)"
proof (induction old s rule: pieces.induct)
  case (1 old)
  then show ?case by simp
next
  case (2 old c cs)
  show ?case
  proof (cases "prefix old (c # cs)")
    case True
    then show ?thesis using pieces_ne [of old "drop (length old - 1) cs"]
      by (cases "pieces old (drop (length old - 1) cs)") auto
  next
    case False
    with "2.prems" have "sublist old cs" by (simp add: sublist_Cons_right)
    with "2.IH"(2) False "2.prems"(1) have "2 \<le> length (pieces old cs)" by simp
    with False show ?thesis by (cases "pieces old cs") auto
  qed
qed

lemma replace_absent: "\<not> sublist old s \<Longrightarrow> py_replace old new s = s"
proof -
  assume a: "\<not> sublist old s"
  then have "old \<noteq> []" by auto
  with a show ?thesis by (simp add: py_replace_def replace_pieces pieces_absent)
qed

lemma join_with_sublist: "2 \<le> length ps \<Longrightarrow> sublist sep (join_with sep ps)"
proof -
  assume "2 \<le> length ps"
  then obtain p q qs where "ps = p # q # qs"
    by (cases ps; cases "tl ps") auto
  then show ?thesis by simp
qed

lemma replace_puts_new:
  assumes "old \<noteq> []" "sublist old s"
  shows "sublist new (py_replace old new s)"
  using assms by (simp add: py_replace_def replace_pieces join_with_sublist pieces_present)

text \<open>
  A text that cannot overlap \<open>old\<close> passes through the replacement untouched, and the
  replacement works on what is before it and on what is behind it separately.
\<close>

lemma replace_scan_keep:
  assumes "\<And>u t. suffix u y \<Longrightarrow> u \<noteq> [] \<Longrightarrow> \<not> prefix old (u @ t)"
  shows "replace_scan old new (y @ b) = y @ replace_scan old new b"
  using assms
proof (induction y)
  case Nil
  show ?case by simp
next
  case (Cons a ys)
  have "\<not> prefix old ((a # ys) @ b)"
    using Cons.prems [of "a # ys" b] by simp
  moreover have "replace_scan old new (ys @ b) = ys @ replace_scan old new b"
  proof (rule Cons.IH)
    fix u t assume "suffix u ys" "u \<noteq> []"
    then show "\<not> prefix old (u @ t)" using Cons.prems [of u t] by (simp add: suffix_ConsI)
  qed
  ultimately show ?case by simp
qed

lemma replace_scan_before:
  assumes "\<And>u t. prefix old (u @ x @ t) \<Longrightarrow> prefix old u"
  shows "replace_scan old new (a @ x @ b) = replace_scan old new a @ replace_scan old new (x @ b)"
  using assms
proof (induction old new a rule: replace_scan.induct)
  case (1 old new)
  show ?case by simp
next
  case (2 old new c cs)
  show ?case
  proof (cases "prefix old (c # cs)")
    case True
    then have len: "length old - 1 \<le> length cs"
      using prefix_length_le [of old "c # cs"] by simp
    from True have long: "prefix old (c # cs @ x @ b)"
      using prefix_prefix [of old "c # cs" "x @ b"] by simp
    have "replace_scan old new (drop (length old - 1) cs @ x @ b) =
        replace_scan old new (drop (length old - 1) cs) @ replace_scan old new (x @ b)"
      using "2.IH"(1) [OF True] "2.prems" by blast
    with True long len show ?thesis by simp
  next
    case False
    then have short: "\<not> prefix old (c # cs @ x @ b)"
      using "2.prems" [of "c # cs" b] by auto
    have "replace_scan old new (cs @ x @ b) =
        replace_scan old new cs @ replace_scan old new (x @ b)"
      using "2.IH"(2) [OF False] "2.prems" by blast
    with False short show ?thesis by simp
  qed
qed

lemma no_overlap_start:
  assumes "no_overlap old x" "suffix u x" "u \<noteq> []"
  shows "\<not> prefix old (u @ t)"
proof
  assume "prefix old (u @ t)"
  then have "prefix old u \<or> prefix u old"
    by (auto simp: prefix_append)
  with assms show False by (auto simp: no_overlap_def)
qed

lemma no_overlap_reach:
  assumes "no_overlap old x" "prefix old (u @ x @ t)"
  shows "prefix old u"
proof (rule ccontr)
  assume n: "\<not> prefix old u"
  with assms(2) obtain us where us: "old = u @ us" "prefix us (x @ t)"
    by (auto simp: prefix_append)
  with n have "us \<noteq> []" by auto
  moreover have "suffix us old" using us(1) by (simp add: suffix_def)
  moreover from us(2) have "prefix us x \<or> prefix x us" by (auto simp: prefix_append)
  ultimately show False using assms(1) by (auto simp: no_overlap_def)
qed

lemma replace_scan_around:
  assumes "no_overlap old x"
  shows "replace_scan old new (a @ x @ b) = replace_scan old new a @ x @ replace_scan old new b"
proof -
  have "replace_scan old new (a @ x @ b) = replace_scan old new a @ replace_scan old new (x @ b)"
    by (rule replace_scan_before) (rule no_overlap_reach [OF assms])
  also have "replace_scan old new (x @ b) = x @ replace_scan old new b"
    by (rule replace_scan_keep) (rule no_overlap_start [OF assms])
  finally show ?thesis .
qed

lemma replace_keeps_sublist:
  assumes "old \<noteq> []" "no_overlap old x" "sublist x s"
  shows "sublist x (py_replace old new s)"
proof -
  from assms(3) obtain a b where "s = a @ x @ b" by (auto simp: sublist_def)
  then show ?thesis
    using assms(1) replace_scan_around [OF assms(2), of new a b] by (simp add: py_replace_def)
qed

text \<open>The markers of the script and the texts it inserts.\<close>

lemma news_marker_ne: "news_marker \<noteq> []"
  by (simp add: news_marker_def ascii_def)

lemma time_marker_ne: "time_marker \<noteq> []"
  by (simp add: time_marker_def ascii_def)

lemma no_overlap_news_time: "no_overlap news_marker time_marker"
  by (simp add: no_overlap_def news_marker_def time_marker_def ascii_def)

lemma no_overlap_time_unavailable: "no_overlap time_marker (news_open @ unavailable @ news_close)"
  by (simp add: no_overlap_def news_open_def news_close_def unavailable_def time_marker_def ascii_def)

section \<open>The two substitutions\<close>

lemma update_written:
  assumes "read_file d = Inr c" "writable d" "prepare now_strftime items = (news_html, update_time)"
  shows "update_index_html now_strftime d items =
     Inr (d\<lparr>index_html := Some (substitute news_html update_time c)\<rparr>,
          [UpdatedMsg (length items) update_time])"
  using assms by (simp add: update_index_html_def update_body_def write_file_def)

lemma universal_newlines_id: "CR \<notin> set s \<Longrightarrow> universal_newlines s = s"
  by (induction s rule: universal_newlines.induct) auto

lemma read_disk_of: "CR \<notin> set c \<Longrightarrow> read_file (disk_of c) = Inr c"
  by (simp add: read_file_def disk_of_def universal_newlines_id)

lemma page_both_plain: "CR \<notin> set page_both"
  by (simp add: page_both_def news_marker_def time_marker_def ascii_def CR_def)

lemma page_twice_plain: "CR \<notin> set page_twice"
  by (simp add: page_twice_def news_marker_def time_marker_def ascii_def CR_def)

lemma writable_disk_of: "writable (disk_of c)"
  by (simp add: disk_of_def)

text \<open>
  C7, as the code has it: for a file that can be read and written. The text the
  script works on is the file's text as read in text mode, with every \<^verbatim>\<open>\r\n\<close> and
  every other \<^verbatim>\<open>\r\<close> turned into \<^verbatim>\<open>\n\<close>; for a file without \<^verbatim>\<open>\r\<close> that is the
  file's text itself. Without the news marker in it, the text written back is that
  text with the time marker alone substituted: the same pieces around the time
  markers, joined by the time instead; so apart from the line ends every character
  outside a time marker is as it was, whatever the items. Without either marker the
  text as read is written back. And the news substitution does not need the time
  marker: where the text after the news substitution holds no time marker, that text
  is what is written. No case raises.
\<close>

theorem absent_marker_no_effect:
  assumes "index_html d = Some raw" and "readable d" and "writable d"
    and "c = universal_newlines raw"
    and "prepare now_strftime items = (news_html, update_time)"
  shows "(CR \<notin> set raw \<longrightarrow> c = raw)
       \<and> (\<not> sublist news_marker c \<longrightarrow>
            update_index_html now_strftime d items =
              Inr (d\<lparr>index_html := Some (py_replace time_marker update_time c)\<rparr>,
                   [UpdatedMsg (length items) update_time])
            \<and> c = join_with time_marker (pieces time_marker c)
            \<and> py_replace time_marker update_time c = join_with update_time (pieces time_marker c))
       \<and> (\<not> sublist news_marker c \<and> \<not> sublist time_marker c \<longrightarrow>
            update_index_html now_strftime d items =
              Inr (d\<lparr>index_html := Some c\<rparr>, [UpdatedMsg (length items) update_time]))
       \<and> (\<not> sublist time_marker (py_replace news_marker (news_open @ news_html @ news_close) c) \<longrightarrow>
            update_index_html now_strftime d items =
              Inr (d\<lparr>index_html :=
                      Some (py_replace news_marker (news_open @ news_html @ news_close) c)\<rparr>,
                   [UpdatedMsg (length items) update_time]))"
proof -
  have rd: "read_file d = Inr c"
    using assms(1,2,4) by (simp add: read_file_def)
  note w = update_written [OF rd assms(3,5)]
  have n: "c = raw" if "CR \<notin> set raw"
    using that assms(4) by (simp add: universal_newlines_id)
  have a: "substitute news_html update_time c = py_replace time_marker update_time c"
    if "\<not> sublist news_marker c"
    using that by (simp add: substitute_def replace_absent)
  have b: "c = join_with time_marker (pieces time_marker c)"
    by (simp add: join_pieces time_marker_ne)
  have c: "py_replace time_marker update_time c = join_with update_time (pieces time_marker c)"
    by (simp add: py_replace_def replace_pieces time_marker_ne)
  have d: "substitute news_html update_time c = c"
    if "\<not> sublist news_marker c" "\<not> sublist time_marker c"
    using that by (simp add: substitute_def replace_absent)
  have e: "substitute news_html update_time c =
      py_replace news_marker (news_open @ news_html @ news_close) c"
    if "\<not> sublist time_marker (py_replace news_marker (news_open @ news_html @ news_close) c)"
    using that by (simp add: substitute_def replace_absent)
  show ?thesis using w n a b c d e by simp
qed

theorem absent_marker_no_effect_witness:
  "\<not> sublist news_marker page_no_news
   \<and> update_index_html (clock_at ''2026-01-01'') (disk_of page_no_news) [ascii ''<li>x</li>''] =
       Inr (disk_of (ascii ''<div id=news></div><p>2026-01-01</p>''),
            [UpdatedMsg 1 (ascii ''2026-01-01'')])
   \<and> update_index_html (clock_at ''T'') (disk_of page_crlf_time) [ascii ''<li>x</li>''] =
       Inr (disk_of (ascii ''a'' @ [LF] @ ascii ''T'' @ [LF] @ ascii ''c''), [UpdatedMsg 1 (ascii ''T'')])"
proof -
  have n: "\<not> sublist news_marker page_no_news"
    by (simp add: page_no_news_def news_marker_def time_marker_def ascii_def sublist_code)
  have u: "page_no_news = universal_newlines page_no_news"
    by (simp add: universal_newlines_id page_no_news_def time_marker_def ascii_def CR_def)
  have p: "prepare (clock_at ''2026-01-01'') [ascii ''<li>x</li>''] =
      (ascii ''<ul><li>x</li></ul>'', ascii ''2026-01-01'')"
    by (simp add: prepare_def clock_at_def ascii_def)
  have r: "py_replace time_marker (ascii ''2026-01-01'') page_no_news =
      ascii ''<div id=news></div><p>2026-01-01</p>''"
    by (simp add: py_replace_def page_no_news_def time_marker_def ascii_def)
  have u': "ascii ''a'' @ [LF] @ time_marker @ [LF] @ ascii ''c'' = universal_newlines page_crlf_time"
    by (simp add: page_crlf_time_def time_marker_def ascii_def CR_def LF_def)
  have n': "\<not> sublist news_marker (ascii ''a'' @ [LF] @ time_marker @ [LF] @ ascii ''c'')"
    by (simp add: news_marker_def time_marker_def ascii_def LF_def sublist_code)
  have p': "prepare (clock_at ''T'') [ascii ''<li>x</li>''] = (ascii ''<ul><li>x</li></ul>'', ascii ''T'')"
    by (simp add: prepare_def clock_at_def ascii_def)
  have r': "py_replace time_marker (ascii ''T'') (ascii ''a'' @ [LF] @ time_marker @ [LF] @ ascii ''c'') =
      ascii ''a'' @ [LF] @ ascii ''T'' @ [LF] @ ascii ''c''"
    by (simp add: py_replace_def time_marker_def ascii_def LF_def)
  have i: "index_html (disk_of x) = Some x" "readable (disk_of x)" "writable (disk_of x)" for x
    by (simp_all add: disk_of_def)
  show ?thesis
    using absent_marker_no_effect [OF i(1) i(2) i(3) u p] n r
      absent_marker_no_effect [OF i(1) i(2) i(3) u' p'] n' r'
    by (simp add: disk_of_def)
qed

text \<open>
  C7, as the claim states it, fails: a file without either marker whose lines end in
  \<^verbatim>\<open>\r\n\<close> or \<^verbatim>\<open>\r\<close> is not left as it was. The page \<^verbatim>\<open>a\r\nb\rc\<close> is written
  back as \<^verbatim>\<open>a\nb\nc\<close>.
\<close>

theorem line_ends_rewritten_counterexample:
  "\<not> sublist news_marker page_crlf \<and> \<not> sublist time_marker page_crlf
   \<and> update_index_html (clock_at ''T'') (disk_of page_crlf) [] =
       Inr (disk_of (ascii ''a'' @ [LF] @ ascii ''b'' @ [LF] @ ascii ''c''), [UpdatedMsg 0 (ascii ''T'')])
   \<and> ascii ''a'' @ [LF] @ ascii ''b'' @ [LF] @ ascii ''c'' \<noteq> page_crlf"
  by (simp add: update_index_html_def update_body_def read_file_def write_file_def disk_of_def
      prepare_def substitute_def py_replace_def clock_at_def page_crlf_def news_marker_def
      time_marker_def unavailable_def news_open_def news_close_def ascii_def CR_def LF_def
      sublist_code)

text \<open>
  C8: for a file that can be read and written, however often a marker occurs. The
  text read is its pieces joined by the news marker, and no piece holds the marker; the
  text after the first substitution is the same pieces joined by the filled news
  container, so every occurrence is replaced. That text is in turn its pieces joined
  by the time marker, and what is written is those pieces joined by the time. The
  markers are compared character by character (\<open>prefix\<close>), not as patterns.
\<close>

theorem every_occurrence_replaced:
  assumes "read_file d = Inr c" and "writable d"
    and "prepare now_strftime items = (news_html, update_time)"
    and "mid = join_with (news_open @ news_html @ news_close) (pieces news_marker c)"
  shows "c = join_with news_marker (pieces news_marker c)
       \<and> (\<forall>p \<in> set (pieces news_marker c). \<not> sublist news_marker p)
       \<and> mid = join_with time_marker (pieces time_marker mid)
       \<and> (\<forall>q \<in> set (pieces time_marker mid). \<not> sublist time_marker q)
       \<and> update_index_html now_strftime d items =
           Inr (d\<lparr>index_html := Some (join_with update_time (pieces time_marker mid))\<rparr>,
                [UpdatedMsg (length items) update_time])"
proof -
  have "substitute news_html update_time c = join_with update_time (pieces time_marker mid)"
    using assms(4)
    by (simp add: substitute_def py_replace_def replace_pieces news_marker_ne time_marker_ne)
  then have "update_index_html now_strftime d items =
      Inr (d\<lparr>index_html := Some (join_with update_time (pieces time_marker mid))\<rparr>,
           [UpdatedMsg (length items) update_time])"
    using update_written [OF assms(1-3)] by simp
  moreover have "c = join_with news_marker (pieces news_marker c)"
    by (simp add: join_pieces news_marker_ne)
  moreover have "mid = join_with time_marker (pieces time_marker mid)"
    by (simp add: join_pieces time_marker_ne)
  moreover have "\<forall>p \<in> set (pieces news_marker c). \<not> sublist news_marker p"
    using pieces_free [OF news_marker_ne] by blast
  moreover have "\<forall>q \<in> set (pieces time_marker mid). \<not> sublist time_marker q"
    using pieces_free [OF time_marker_ne] by blast
  ultimately show ?thesis by blast
qed

theorem every_occurrence_replaced_witness:
  "pieces news_marker page_twice = [[], ascii ''+'' @ time_marker @ ascii ''+'', time_marker]
   \<and> update_index_html (clock_at ''T'') (disk_of page_twice) [ascii ''N''] =
       Inr (disk_of (news_open @ ascii ''<ul>N</ul>'' @ news_close @ ascii ''+T+'' @
                      news_open @ ascii ''<ul>N</ul>'' @ news_close @ ascii ''T''),
            [UpdatedMsg 1 (ascii ''T'')])"
proof -
  have p: "prepare (clock_at ''T'') [ascii ''N''] = (ascii ''<ul>N</ul>'', ascii ''T'')"
    by (simp add: prepare_def clock_at_def ascii_def)
  have n: "pieces news_marker page_twice = [[], ascii ''+'' @ time_marker @ ascii ''+'', time_marker]"
    by (simp add: page_twice_def news_marker_def time_marker_def ascii_def)
  have t: "pieces time_marker
      (join_with (news_open @ ascii ''<ul>N</ul>'' @ news_close)
         [[], ascii ''+'' @ time_marker @ ascii ''+'', time_marker]) =
      [news_open @ ascii ''<ul>N</ul>'' @ news_close @ ascii ''+'',
       ascii ''+'' @ news_open @ ascii ''<ul>N</ul>'' @ news_close, []]"
    by (simp add: news_open_def news_close_def time_marker_def ascii_def)
  show ?thesis
    using every_occurrence_replaced [OF read_disk_of [OF page_twice_plain] writable_disk_of p refl]
      n t
    by (simp add: disk_of_def ascii_def)
qed

text \<open>
  C6: for a file that can be read and written and whose text holds both markers, a run with
  no items writes a text that holds the news container filled with the fixed
  message, and the time of the run in place of the time marker; the time is the same
  call of the clock, with the same format, as for a non-empty list.
\<close>

theorem empty_items_fallback:
  assumes "read_file d = Inr c" and "writable d"
    and "sublist news_marker c" and "sublist time_marker c"
    and "r = substitute unavailable (now_strftime time_format) c"
  shows "update_index_html now_strftime d [] =
           Inr (d\<lparr>index_html := Some r\<rparr>, [UpdatedMsg 0 (now_strftime time_format)])
       \<and> sublist (news_open @ unavailable @ news_close) r
       \<and> sublist (now_strftime time_format) r
       \<and> snd (prepare now_strftime []) = snd (prepare now_strftime items)"
proof -
  let ?T = "now_strftime time_format"
  let ?F = "news_open @ unavailable @ news_close"
  let ?mid = "py_replace news_marker ?F c"
  have p: "prepare now_strftime [] = (unavailable, ?T)"
    by (simp add: prepare_def)
  have r: "r = py_replace time_marker ?T ?mid"
    using assms(5) by (simp add: substitute_def)
  have "sublist ?F ?mid"
    using replace_puts_new [OF news_marker_ne assms(3)] .
  then have f: "sublist ?F r"
    unfolding r by (rule replace_keeps_sublist [OF time_marker_ne no_overlap_time_unavailable])
  have "sublist time_marker ?mid"
    using replace_keeps_sublist [OF news_marker_ne no_overlap_news_time assms(4)] .
  then have t: "sublist ?T r"
    unfolding r by (rule replace_puts_new [OF time_marker_ne])
  have s: "snd (prepare now_strftime []) = snd (prepare now_strftime items)"
    by (simp add: prepare_def)
  show ?thesis
    using update_written [OF assms(1,2) p] assms(5) f t s by simp
qed

theorem empty_items_fallback_witness:
  "sublist news_marker page_both \<and> sublist time_marker page_both
   \<and> update_index_html (clock_at ''T'') (disk_of page_both) [] =
       Inr (disk_of (ascii ''<h1>x</h1>'' @ news_open @ unavailable @ news_close @ ascii ''<p>T</p>''),
            [UpdatedMsg 0 (ascii ''T'')])"
proof -
  have n: "sublist news_marker page_both"
    unfolding page_both_def sublist_def
    by (rule exI [of _ "ascii ''<h1>x</h1>''"],
        rule exI [of _ "ascii ''<p>'' @ time_marker @ ascii ''</p>''"]) simp
  have t: "sublist time_marker page_both"
    unfolding page_both_def sublist_def
    by (rule exI [of _ "ascii ''<h1>x</h1>'' @ news_marker @ ascii ''<p>''"],
        rule exI [of _ "ascii ''</p>''"]) simp
  have r: "substitute unavailable (ascii ''T'') page_both =
      ascii ''<h1>x</h1>'' @ news_open @ unavailable @ news_close @ ascii ''<p>T</p>''"
    by (simp add: substitute_def py_replace_def page_both_def news_marker_def time_marker_def
        news_open_def news_close_def unavailable_def ascii_def)
  show ?thesis
    using empty_items_fallback [OF read_disk_of [OF page_both_plain] writable_disk_of n t refl,
        of "clock_at ''T''"] r n t
    by (simp add: disk_of_def clock_at_def)
qed

text \<open>
  C2 does not hold of the code. The first run replaces the empty container
  \<^verbatim>\<open><div id="news"></div>\<close> by a filled one and the time marker by the time, so the
  file it writes holds neither marker; the second run finds nothing to replace and
  writes the file back as the first run left it. On the page below, after a run with
  the item \<^verbatim>\<open><li>a</li>\<close> at time \<^verbatim>\<open>T1\<close> and a run with \<^verbatim>\<open><li>b</li>\<close> at time
  \<^verbatim>\<open>T2\<close>, the file still shows \<^verbatim>\<open><li>a</li>\<close> and \<^verbatim>\<open>T1\<close>, although the second run
  reports one item written at \<^verbatim>\<open>T2\<close>.
\<close>

theorem second_run_keeps_first_news:
  "update_twice (clock_at ''T1'') (clock_at ''T2'') (disk_of page_both)
     [ascii ''<li>a</li>''] [ascii ''<li>b</li>''] =
   Inr (disk_of (ascii ''<h1>x</h1>'' @ news_open @ ascii ''<ul><li>a</li></ul>'' @ news_close @
                  ascii ''<p>T1</p>''),
        [UpdatedMsg 1 (ascii ''T2'')])"
  by (simp add: update_twice_def update_index_html_def update_body_def read_file_def
      write_file_def disk_of_def prepare_def substitute_def py_replace_def clock_at_def
      page_both_def news_marker_def time_marker_def news_open_def news_close_def ascii_def
      CR_def LF_def)

end
